theory Spec2Isabelle
  imports Main
begin

section \<open>Data model\<close>

text \<open>
  The keyword arguments one sub-evaluator receives: the four required fields of
  \<^verbatim>\<open>__call__\<close> and the extra keyword arguments \<^verbatim>\<open>**kwargs\<close>, kept as the
  ordered list of (name, value) pairs a Python dict holds. The field for the source's
  \<^verbatim>\<open>context\<close> is named \<open>context_arg\<close>. The type \<open>'v\<close> of the extra values
  is left open. Python binds the four names to the named parameters, so \<^verbatim>\<open>kwargs\<close>
  never holds one of them, nor \<^verbatim>\<open>self\<close>, nor a name twice (see \<open>valid_kwargs\<close>).
\<close>

record 'v evaluation_input =
  question :: string
  answer :: string
  context_arg :: string
  ground_truth :: string
  kwargs :: "(string \<times> 'v) list"

text \<open>
  A sub-evaluator returns a dict from metric name to score (\<open>'s\<close>), or raises
  (\<open>'e\<close> is whatever it raises). The sub-evaluators are imported from
  \<^verbatim>\<open>promptflow.evals.evaluators\<close>: each is a callable object, modelled by the
  function it computes on its keyword arguments.
\<close>

type_synonym 's metric_result = "string \<rightharpoonup> 's"

type_synonym ('v, 'e, 's) evaluator = "'v evaluation_input \<Rightarrow> 'e + 's metric_result"

text \<open>The instance: \<^verbatim>\<open>self._parallel\<close> and \<^verbatim>\<open>self._evaluators\<close>.\<close>

record ('v, 'e, 's) QAEvaluator =
  parallel :: bool
  evaluators :: "('v, 'e, 's) evaluator list"

text \<open>
  The six classes \<^verbatim>\<open>__init__\<close> instantiates are not part of this file: their
  constructors are parameters. Five take the model configuration, \<^verbatim>\<open>F1ScoreEvaluator()\<close>
  takes nothing. A constructor may raise.
\<close>

record ('cfg, 'v, 'e, 's) evaluator_classes =
  GroundednessEvaluator :: "'cfg \<Rightarrow> 'e + ('v, 'e, 's) evaluator"
  RelevanceEvaluator :: "'cfg \<Rightarrow> 'e + ('v, 'e, 's) evaluator"
  CoherenceEvaluator :: "'cfg \<Rightarrow> 'e + ('v, 'e, 's) evaluator"
  FluencyEvaluator :: "'cfg \<Rightarrow> 'e + ('v, 'e, 's) evaluator"
  SimilarityEvaluator :: "'cfg \<Rightarrow> 'e + ('v, 'e, 's) evaluator"
  F1ScoreEvaluator :: "unit \<Rightarrow> 'e + ('v, 'e, 's) evaluator"

text \<open>
  What one call of \<^verbatim>\<open>__call__\<close> does: the instance after the call, what the caller
  gets (the returned dict, or the exception that propagates), and the sub-evaluator
  invocations made, each as the position of the sub-evaluator in
  \<^verbatim>\<open>self._evaluators\<close> with the keyword arguments it was called with.
\<close>

record ('v, 'e, 's) call_outcome =
  self_after :: "('v, 'e, 's) QAEvaluator"
  returned :: "'e + 's metric_result"
  invoked :: "(nat \<times> 'v evaluation_input) list"

section \<open>Construction\<close>

text \<open>
  \<^verbatim>\<open>def __init__(self, model_config, parallel: bool = True)\<close>: an omitted flag
  (\<open>None\<close>) takes the default. The list display evaluates its six constructor calls
  left to right; the first that raises ends \<^verbatim>\<open>__init__\<close> with that exception.
\<close>

definition QAEvaluator_init ::
  "('cfg, 'v, 'e, 's) evaluator_classes \<Rightarrow> 'cfg \<Rightarrow> bool option \<Rightarrow> 'e + ('v, 'e, 's) QAEvaluator" where
  "QAEvaluator_init cls model_config parallel_arg =
     (let p = (case parallel_arg of None \<Rightarrow> True | Some b \<Rightarrow> b) in
      case GroundednessEvaluator cls model_config of Inl err \<Rightarrow> Inl err | Inr e1 \<Rightarrow>
      (case RelevanceEvaluator cls model_config of Inl err \<Rightarrow> Inl err | Inr e2 \<Rightarrow>
      (case CoherenceEvaluator cls model_config of Inl err \<Rightarrow> Inl err | Inr e3 \<Rightarrow>
      (case FluencyEvaluator cls model_config of Inl err \<Rightarrow> Inl err | Inr e4 \<Rightarrow>
      (case SimilarityEvaluator cls model_config of Inl err \<Rightarrow> Inl err | Inr e5 \<Rightarrow>
      (case F1ScoreEvaluator cls () of Inl err \<Rightarrow> Inl err | Inr e6 \<Rightarrow>
         Inr \<lparr>parallel = p, evaluators = [e1, e2, e3, e4, e5, e6]\<rparr>))))))"

section \<open>Invocation\<close>

text \<open>
  The sequential branch:
  \<^verbatim>\<open>for evaluator in self._evaluators: results.update(evaluator(...))\<close>.
  The argument of \<^verbatim>\<open>update\<close> is evaluated first, so a sub-evaluator that raises
  ends the loop before anything is merged for it; the local \<^verbatim>\<open>results\<close> is lost.
  \<open>results ++ r\<close> is \<^verbatim>\<open>results.update(r)\<close>: the entries of \<open>r\<close> overwrite.
\<close>

fun sequential_loop ::
  "('v, 'e, 's) evaluator list \<Rightarrow> nat \<Rightarrow> 'v evaluation_input \<Rightarrow> 's metric_result \<Rightarrow>
   (nat \<times> 'v evaluation_input) list \<Rightarrow> ('e + 's metric_result) \<times> (nat \<times> 'v evaluation_input) list" where
  "sequential_loop [] i a results calls = (Inr results, calls)"
| "sequential_loop (evaluator # rest) i a results calls =
     (case evaluator a of
        Inl err \<Rightarrow> (Inl err, calls @ [(i, a)])
      | Inr r \<Rightarrow> sequential_loop rest (Suc i) a (results ++ r) (calls @ [(i, a)]))"

text \<open>
  The parallel branch. The dict comprehension submits every sub-evaluator to the pool,
  in list order, with the same keyword arguments; a future holds what its call returned
  or raised. Leaving the \<^verbatim>\<open>with\<close> block waits for every submitted call, so all of them
  run, also when the merge loop raises.
\<close>

definition submit_all ::
  "('v, 'e, 's) evaluator list \<Rightarrow> 'v evaluation_input \<Rightarrow>
   ('e + 's metric_result) list \<times> (nat \<times> 'v evaluation_input) list" where
  "submit_all evs a = (map (\<lambda>evaluator. evaluator a) evs, map (\<lambda>i. (i, a)) [0..<length evs])"

text \<open>
  \<^verbatim>\<open>as_completed(futures)\<close> yields every future once, in the order they finish. That
  order is the scheduler's: it is the parameter \<open>order\<close>, the positions of the futures
  in the order they complete, and \<open>completion_order\<close> says it is such an order.
\<close>

definition completion_order :: "nat \<Rightarrow> nat list \<Rightarrow> bool" where
  "completion_order n order \<longleftrightarrow> distinct order \<and> set order = set [0..<n]"

definition as_completed :: "'a list \<Rightarrow> nat list \<Rightarrow> 'a list" where
  "as_completed futures order = map (\<lambda>i. futures ! i) order"

text \<open>
  \<^verbatim>\<open>for future in as_completed(futures): results.update(future.result())\<close>;
  \<^verbatim>\<open>future.result()\<close> raises what the call raised.
\<close>

fun collect_loop :: "('e + 's metric_result) list \<Rightarrow> 's metric_result \<Rightarrow> 'e + 's metric_result" where
  "collect_loop [] results = Inr results"
| "collect_loop (future # rest) results =
     (case future of
        Inl err \<Rightarrow> Inl err
      | Inr r \<Rightarrow> collect_loop rest (results ++ r))"

text \<open>
  The body of \<^verbatim>\<open>__call__\<close>, lines 68 to 93: what runs once Python has bound the
  arguments of the call to the parameters of line 52. \<open>q\<close>, \<open>a\<close>, \<open>c\<close>, \<open>g\<close> are
  the four keyword-only parameters and \<open>kw\<close> is what \<^verbatim>\<open>**kwargs\<close> collected. The
  binding itself, which can fail, is \<open>QAEvaluator_bind_call\<close> below.
\<close>

definition QAEvaluator_call ::
  "('v, 'e, 's) QAEvaluator \<Rightarrow> string \<Rightarrow> string \<Rightarrow> string \<Rightarrow> string \<Rightarrow> (string \<times> 'v) list \<Rightarrow>
   nat list \<Rightarrow> ('v, 'e, 's) call_outcome" where
  "QAEvaluator_call self q a c g kw order =
     (let args = \<lparr>question = q, answer = a, context_arg = c, ground_truth = g, kwargs = kw\<rparr>;
          results = Map.empty
      in if parallel self then
           (case submit_all (evaluators self) args of
              (futures, calls) \<Rightarrow>
                \<lparr>self_after = self,
                 returned = collect_loop (as_completed futures order) results,
                 invoked = calls\<rparr>)
         else
           (case sequential_loop (evaluators self) 0 args results [] of
              (r, calls) \<Rightarrow> \<lparr>self_after = self, returned = r, invoked = calls\<rparr>))"

text \<open>
  The signature \<^verbatim>\<open>def __call__(self, *, question, answer, context, ground_truth, **kwargs)\<close>
  decides which extra keyword arguments a call can carry. An extra keyword named
  \<^verbatim>\<open>self\<close> clashes with the first parameter, one named like a field would give that
  field two values, and so would a name given twice: Python raises \<^verbatim>\<open>TypeError\<close> while
  binding, before the body runs. Every other list of distinct names is collected into
  \<^verbatim>\<open>kwargs\<close> as it is.
\<close>

definition reserved_names :: "string list" where
  "reserved_names = [''self'', ''question'', ''answer'', ''context'', ''ground_truth'']"

definition valid_kwargs :: "(string \<times> 'v) list \<Rightarrow> bool" where
  "valid_kwargs kw \<longleftrightarrow>
     distinct (map fst kw) \<and> filter (\<lambda>name. name \<in> set reserved_names) (map fst kw) = []"

text \<open>
  A call of the instance with its keyword arguments: either binding fails with
  \<^verbatim>\<open>TypeError\<close>, and then nothing of the body has run, or the body runs on the bound
  arguments. \<open>invocations\<close> are the sub-evaluator invocations the attempt made.
\<close>

datatype ('v, 'e, 's) call_attempt = TypeError | Bound "('v, 'e, 's) call_outcome"

fun invocations :: "('v, 'e, 's) call_attempt \<Rightarrow> (nat \<times> 'v evaluation_input) list" where
  "invocations TypeError = []"
| "invocations (Bound outcome) = invoked outcome"

definition QAEvaluator_bind_call ::
  "('v, 'e, 's) QAEvaluator \<Rightarrow> string \<Rightarrow> string \<Rightarrow> string \<Rightarrow> string \<Rightarrow> (string \<times> 'v) list \<Rightarrow>
   nat list \<Rightarrow> ('v, 'e, 's) call_attempt" where
  "QAEvaluator_bind_call self q a c g kw order =
     (if valid_kwargs kw then Bound (QAEvaluator_call self q a c g kw order) else TypeError)"

section \<open>Test doubles\<close>

text \<open>
  Mock sub-evaluators for the concrete runs below: one that returns a fixed dict whatever
  it is called with, one that raises a fixed error. Extra keyword values and scores are
  numbers, errors are strings.
\<close>

definition mock_returning :: "(string \<times> 's) list \<Rightarrow> ('v, 'e, 's) evaluator" where
  "mock_returning items = (\<lambda>args. Inr (map_of items))"

definition mock_raising :: "'e \<Rightarrow> ('v, 'e, 's) evaluator" where
  "mock_raising err = (\<lambda>args. Inl err)"

definition distinct_mocks :: "(nat, string, nat) evaluator list" where
  "distinct_mocks =
     [mock_returning [(''gpt_groundedness'', 1)], mock_returning [(''gpt_relevance'', 1)],
      mock_returning [(''gpt_coherence'', 1)], mock_returning [(''gpt_fluency'', 1)],
      mock_returning [(''gpt_similarity'', 1)], mock_returning [(''f1_score'', 1)]]"

definition colliding_results :: "(string \<times> nat) list list" where
  "colliding_results =
     [[(''score'', 1), (''gpt_groundedness'', 1)], [(''score'', 2)], [(''score'', 3)],
      [(''score'', 4)], [(''score'', 5), (''shared'', 5)], [(''shared'', 6), (''f1_score'', 6)]]"

definition colliding_mocks :: "(nat, string, nat) evaluator list" where
  "colliding_mocks = map mock_returning colliding_results"

definition third_raises :: "(nat, string, nat) evaluator list" where
  "third_raises =
     [mock_returning [(''gpt_groundedness'', 1)], mock_returning [(''gpt_relevance'', 1)],
      mock_raising ''boom'', mock_returning [(''gpt_fluency'', 1)],
      mock_returning [(''gpt_similarity'', 1)], mock_returning [(''f1_score'', 1)]]"

definition mock_classes :: "(nat, nat, string, nat) evaluator_classes" where
  "mock_classes =
     \<lparr>GroundednessEvaluator = (\<lambda>cfg. Inr (mock_returning [(''score'', cfg + 1), (''gpt'', cfg + 1)])),
      RelevanceEvaluator = (\<lambda>cfg. Inr (mock_returning [(''score'', cfg + 2), (''gpt'', cfg + 2)])),
      CoherenceEvaluator = (\<lambda>cfg. Inr (mock_returning [(''score'', cfg + 3), (''gpt'', cfg + 3)])),
      FluencyEvaluator = (\<lambda>cfg. Inr (mock_returning [(''score'', cfg + 4), (''gpt'', cfg + 4)])),
      SimilarityEvaluator = (\<lambda>cfg. Inr (mock_returning [(''score'', cfg + 5), (''gpt'', cfg + 5)])),
      F1ScoreEvaluator = (\<lambda>u. Inr (mock_returning [(''score'', 0), (''f1_score'', 0)]))\<rparr>"

definition broken_classes :: "(nat, nat, string, nat) evaluator_classes" where
  "broken_classes = mock_classes\<lparr>CoherenceEvaluator := (\<lambda>cfg. Inl ''bad config'')\<rparr>"

section \<open>The two loops\<close>

lemma upt_step: "[i..<i + Suc n] = i # [Suc i..<Suc i + n]"
  by (simp add: upt_conv_Cons del: upt_Suc)

lemma sequential_loop_all_succeed:
  "map (\<lambda>ev. ev a) evs = map Inr rs \<Longrightarrow>
   sequential_loop evs i a results calls =
     (Inr (foldl (++) results rs), calls @ map (\<lambda>j. (j, a)) [i..<i + length evs])"
proof (induction evs arbitrary: i results calls rs)
  case Nil
  then show ?case by simp
next
  case (Cons ev evs)
  then obtain r rs' where rs: "rs = r # rs'" and r: "ev a = Inr r"
    and rest: "map (\<lambda>ev. ev a) evs = map Inr rs'"
    by (cases rs) auto
  have "[i..<i + length (ev # evs)] = i # [Suc i..<Suc i + length evs]"
    using upt_step [of i "length evs"] by simp
  with Cons.IH [OF rest, of "Suc i" "results ++ r" "calls @ [(i, a)]"] rs r
  show ?case by (simp del: upt_Suc)
qed

lemma sequential_loop_first_failure:
  "n < length evs \<Longrightarrow> (evs ! n) a = Inl err \<Longrightarrow> \<forall>j<n. \<exists>r. (evs ! j) a = Inr r \<Longrightarrow>
   sequential_loop evs i a results calls = (Inl err, calls @ map (\<lambda>j. (j, a)) [i..<i + Suc n])"
proof (induction evs arbitrary: n i results calls)
  case Nil
  then show ?case by simp
next
  case (Cons ev evs)
  show ?case
  proof (cases n)
    case 0
    with Cons.prems show ?thesis by simp
  next
    case (Suc m)
    from Cons.prems(3) Suc obtain r where r: "ev a = Inr r" by fastforce
    have m: "m < length evs" "(evs ! m) a = Inl err" "\<forall>j<m. \<exists>r. (evs ! j) a = Inr r"
      using Cons.prems Suc by auto
    have "[i..<i + Suc n] = i # [Suc i..<Suc i + Suc m]"
      using Suc upt_step [of i n] by simp
    with Cons.IH [OF m, of "Suc i" "results ++ r" "calls @ [(i, a)]"] r
    show ?thesis by (simp del: upt_Suc)
  qed
qed

lemma collect_loop_all_succeed:
  "collect_loop (map Inr rs) results = Inr (foldl (++) results rs)"
  by (induction rs arbitrary: results) simp_all

lemma collect_loop_failure:
  "\<exists>err. Inl err \<in> set futures \<Longrightarrow> \<exists>err. Inl err \<in> set futures \<and> collect_loop futures results = Inl err"
proof (induction futures arbitrary: results)
  case Nil
  then show ?case by simp
next
  case (Cons f fs)
  show ?case
  proof (cases f)
    case (Inl e)
    then show ?thesis by auto
  next
    case (Inr r)
    with Cons.prems have "\<exists>err. Inl err \<in> set fs" by auto
    from Cons.IH [OF this, of "results ++ r"] Inr show ?thesis by auto
  qed
qed

section \<open>Merging dicts\<close>

lemma dom_foldl_map_add:
  "dom (foldl (++) m rs) = dom m \<union> (\<Union>r\<in>set rs. dom r)"
  by (induction rs arbitrary: m) auto

lemma foldl_map_add_not_emitted:
  "\<forall>r\<in>set rs. k \<notin> dom r \<Longrightarrow> foldl (++) m rs k = m k"
  by (induction rs arbitrary: m) (simp_all add: map_add_dom_app_simps)

lemma foldl_map_add_last_wins:
  assumes "j < length rs" and "k \<in> dom (rs ! j)" and "\<forall>r\<in>set (drop (Suc j) rs). k \<notin> dom r"
  shows "foldl (++) m rs k = (rs ! j) k"
proof -
  have "rs = take j rs @ rs ! j # drop (Suc j) rs"
    using assms(1) by (rule id_take_nth_drop)
  then have "foldl (++) m rs k =
      foldl (++) (foldl (++) m (take j rs) ++ (rs ! j)) (drop (Suc j) rs) k"
    by (metis foldl_Cons foldl_append)
  also have "\<dots> = (foldl (++) m (take j rs) ++ (rs ! j)) k"
    using assms(3) by (rule foldl_map_add_not_emitted)
  also have "\<dots> = (rs ! j) k"
    using assms(2) by (simp add: map_add_dom_app_simps)
  finally show ?thesis .
qed

lemma foldl_map_add_agreed:
  "\<forall>r\<in>set rs. k \<in> dom r \<longrightarrow> r k = v \<Longrightarrow> \<exists>r\<in>set rs. k \<in> dom r \<Longrightarrow> foldl (++) m rs k = v"
proof (induction rs arbitrary: m rule: rev_induct)
  case Nil
  then show ?case by simp
next
  case (snoc r rs)
  show ?case
  proof (cases "k \<in> dom r")
    case True
    with snoc.prems(1) show ?thesis by (simp add: map_add_dom_app_simps)
  next
    case False
    with snoc.prems have "foldl (++) m rs k = v" by (intro snoc.IH) auto
    with False show ?thesis by (simp add: map_add_dom_app_simps)
  qed
qed


section \<open>The branches of a call\<close>

lemma sequential_returned:
  "\<not> parallel self \<Longrightarrow>
   returned (QAEvaluator_call self q a c g kw order) =
     fst (sequential_loop (evaluators self) 0
       \<lparr>question = q, answer = a, context_arg = c, ground_truth = g, kwargs = kw\<rparr> Map.empty [])"
  by (simp add: QAEvaluator_call_def Let_def split: prod.splits)

lemma sequential_invoked:
  "\<not> parallel self \<Longrightarrow>
   invoked (QAEvaluator_call self q a c g kw order) =
     snd (sequential_loop (evaluators self) 0
       \<lparr>question = q, answer = a, context_arg = c, ground_truth = g, kwargs = kw\<rparr> Map.empty [])"
  by (simp add: QAEvaluator_call_def Let_def split: prod.splits)

lemma parallel_returned:
  "parallel self \<Longrightarrow>
   returned (QAEvaluator_call self q a c g kw order) =
     collect_loop (as_completed (map (\<lambda>ev. ev
       \<lparr>question = q, answer = a, context_arg = c, ground_truth = g, kwargs = kw\<rparr>) (evaluators self)) order)
       Map.empty"
  by (simp add: QAEvaluator_call_def Let_def submit_all_def)

lemma parallel_invoked:
  "parallel self \<Longrightarrow>
   invoked (QAEvaluator_call self q a c g kw order) =
     map (\<lambda>i. (i, \<lparr>question = q, answer = a, context_arg = c, ground_truth = g, kwargs = kw\<rparr>))
       [0..<length (evaluators self)]"
  by (simp add: QAEvaluator_call_def Let_def submit_all_def)

lemma self_after_call: "self_after (QAEvaluator_call self q a c g kw order) = self"
  by (simp add: QAEvaluator_call_def Let_def split: prod.splits)

section \<open>Failures and completion orders\<close>

lemma first_failure:
  assumes "i < length evs" and "(evs ! i) x = Inl err"
  shows "\<exists>n e. n \<le> i \<and> (evs ! n) x = Inl e \<and> (\<forall>j<n. \<exists>r. (evs ! j) x = Inr r)"
proof -
  define n where "n = (LEAST j. \<exists>e. (evs ! j) x = Inl e)"
  have ex: "\<exists>e. (evs ! i) x = Inl e" using assms(2) by blast
  then have "\<exists>e. (evs ! n) x = Inl e" unfolding n_def by (rule LeastI)
  then obtain e where e: "(evs ! n) x = Inl e" ..
  have le: "n \<le> i" unfolding n_def using ex by (rule Least_le)
  have "\<forall>j<n. \<exists>r. (evs ! j) x = Inr r"
  proof (intro allI impI)
    fix j assume "j < n"
    then have "\<not> (\<exists>e. (evs ! j) x = Inl e)" unfolding n_def by (rule not_less_Least)
    then show "\<exists>r. (evs ! j) x = Inr r" by (cases "(evs ! j) x") auto
  qed
  with e le show ?thesis by blast
qed

lemma all_succeed_or_first_failure:
  "(\<exists>rs. map (\<lambda>ev. ev x) evs = map Inr rs) \<or>
   (\<exists>n e. n < length evs \<and> (evs ! n) x = Inl e \<and> (\<forall>j<n. \<exists>r. (evs ! j) x = Inr r))"
proof (cases "\<exists>i<length evs. \<exists>e. (evs ! i) x = Inl e")
  case True
  then obtain i e where i: "i < length evs" "(evs ! i) x = Inl e" by blast
  from first_failure [OF this] i(1) show ?thesis
    by (meson le_less_trans)
next
  case False
  then have "\<forall>i<length evs. (evs ! i) x = Inr (projr ((evs ! i) x))"
    by (metis sum.collapse(2) sum.collapse(1) isl_def)
  then have "map (\<lambda>ev. ev x) evs = map Inr (map (\<lambda>ev. projr (ev x)) evs)"
    by (simp add: list_eq_iff_nth_eq)
  then show ?thesis by blast
qed

lemma as_completed_all_succeed:
  assumes "set order \<subseteq> {0..<length rs}"
  shows "as_completed (map Inr rs) order = map Inr (map (\<lambda>i. rs ! i) order)"
  using assms by (auto simp: as_completed_def)

lemma completion_order_bound: "completion_order n order \<Longrightarrow> set order \<subseteq> {0..<n}"
  by (simp add: completion_order_def)

lemma completion_order_covers:
  assumes "completion_order (length rs) order"
  shows "set (map (\<lambda>i. rs ! i) order) = set rs"
proof -
  have "set order = set [0..<length rs]"
    using assms by (simp add: completion_order_def)
  then have "set (map (\<lambda>i. rs ! i) order) = set (map (\<lambda>i. rs ! i) [0..<length rs])"
    by (simp only: set_map)
  then show ?thesis by (simp only: map_nth)
qed

lemma parallel_all_succeed:
  assumes "parallel self"
    and "map (\<lambda>ev. ev \<lparr>question = q, answer = a, context_arg = c, ground_truth = g, kwargs = kw\<rparr>)
           (evaluators self) = map Inr rs"
    and "completion_order (length (evaluators self)) order"
  shows "returned (QAEvaluator_call self q a c g kw order) =
           Inr (foldl (++) Map.empty (map (\<lambda>i. rs ! i) order))"
proof -
  have len: "length rs = length (evaluators self)"
    using assms(2) by (metis length_map)
  with assms(3) have "set order \<subseteq> {0..<length rs}"
    by (simp add: completion_order_bound)
  then have ac: "as_completed (map Inr rs) order = map Inr (map (\<lambda>i. rs ! i) order)"
    by (rule as_completed_all_succeed)
  show ?thesis
    by (simp only: parallel_returned [OF assms(1)] assms(2) ac collect_loop_all_succeed)
qed

lemma sequential_all_succeed:
  assumes "\<not> parallel self"
    and "map (\<lambda>ev. ev \<lparr>question = q, answer = a, context_arg = c, ground_truth = g, kwargs = kw\<rparr>)
           (evaluators self) = map Inr rs"
  shows "returned (QAEvaluator_call self q a c g kw order) = Inr (foldl (++) Map.empty rs)"
  using assms by (simp add: sequential_returned sequential_loop_all_succeed)

section \<open>The result of a call\<close>

text \<open>
  Claim C1. In sequential mode, when every sub-evaluator returns (\<open>rs\<close> are the dicts
  they return, in list order), the call returns a dict whose keys are the union of the keys
  of \<open>rs\<close>, and a key emitted at position \<open>j\<close> and at no later position has the value
  position \<open>j\<close> gave it: the last sub-evaluator in list order that emits a key wins. The
  statement holds for a list of any length, so for the six the constructor builds.
\<close>

theorem sequential_result_is_ordered_merge:
  assumes "\<not> parallel self"
    and "map (\<lambda>ev. ev \<lparr>question = q, answer = a, context_arg = c, ground_truth = g, kwargs = kw\<rparr>)
           (evaluators self) = map Inr rs"
  shows "\<exists>m. returned (QAEvaluator_call self q a c g kw order) = Inr m
           \<and> dom m = (\<Union>r\<in>set rs. dom r)
           \<and> (\<forall>k j. j < length rs \<and> k \<in> dom (rs ! j)
                  \<and> (\<forall>r\<in>set (drop (Suc j) rs). k \<notin> dom r)
                \<longrightarrow> m k = (rs ! j) k)"
proof -
  have "returned (QAEvaluator_call self q a c g kw order) = Inr (foldl (++) Map.empty rs)"
    using assms by (simp add: sequential_returned sequential_loop_all_succeed)
  moreover have "dom (foldl (++) Map.empty rs) = (\<Union>r\<in>set rs. dom r)"
    by (simp add: dom_foldl_map_add)
  moreover have "\<forall>k j. j < length rs \<and> k \<in> dom (rs ! j)
                  \<and> (\<forall>r\<in>set (drop (Suc j) rs). k \<notin> dom r)
                \<longrightarrow> foldl (++) Map.empty rs k = (rs ! j) k"
    by (intro allI impI foldl_map_add_last_wins) simp_all
  ultimately show ?thesis by simp
qed

text \<open>
  Six mocks that collide on \<open>''score''\<close> (positions 0 to 4) and on \<open>''shared''\<close>
  (positions 4 and 5): position 4 wins the first, position 5 the second.
\<close>

theorem sequential_result_is_ordered_merge_witness:
  "\<not> parallel \<lparr>parallel = False, evaluators = colliding_mocks\<rparr>
   \<and> (\<exists>m. returned (QAEvaluator_call \<lparr>parallel = False, evaluators = colliding_mocks\<rparr>
              ''Tokyo is the capital of which country?'' ''Japan''
              ''Tokyo is the capital of Japan.'' ''Japan'' [] []) = Inr m
          \<and> dom m = {''score'', ''gpt_groundedness'', ''shared'', ''f1_score''}
          \<and> m ''score'' = Some 5 \<and> m ''shared'' = Some 6)"
proof -
  let ?self = "\<lparr>parallel = False, evaluators = colliding_mocks\<rparr>"
  let ?rs = "map map_of colliding_results"
  have h1: "\<not> parallel ?self" by simp
  have h2: "map (\<lambda>ev. ev \<lparr>question = ''Tokyo is the capital of which country?'', answer = ''Japan'',
                context_arg = ''Tokyo is the capital of Japan.'', ground_truth = ''Japan'', kwargs = []\<rparr>)
              (evaluators ?self) = map Inr ?rs"
    by (simp add: colliding_mocks_def mock_returning_def)
  from sequential_result_is_ordered_merge [OF h1 h2, of "[]"]
  obtain m where m1: "returned (QAEvaluator_call ?self
              ''Tokyo is the capital of which country?'' ''Japan''
              ''Tokyo is the capital of Japan.'' ''Japan'' [] []) = Inr m"
    and m2: "dom m = (\<Union>r\<in>set ?rs. dom r)"
    and m3: "\<And>k j. j < length ?rs \<and> k \<in> dom (?rs ! j)
                  \<and> (\<forall>r\<in>set (drop (Suc j) ?rs). k \<notin> dom r)
                \<Longrightarrow> m k = (?rs ! j) k"
    by blast
  have d: "dom m = {''score'', ''gpt_groundedness'', ''shared'', ''f1_score''}"
    unfolding m2 by (auto simp: colliding_results_def)
  have "m ''score'' = (?rs ! 4) ''score''"
    by (rule m3) (simp add: colliding_results_def)
  then have s: "m ''score'' = Some 5" by (simp add: colliding_results_def)
  have "m ''shared'' = (?rs ! 5) ''shared''"
    by (rule m3) (simp add: colliding_results_def)
  then have t: "m ''shared'' = Some 6" by (simp add: colliding_results_def)
  show ?thesis
  proof (intro conjI exI [of _ m])
    show "\<not> parallel ?self" by simp
  qed (rule m1 d s t)+
qed

text \<open>
  Claim C2. Two instances with the same sub-evaluators, one concurrent and one sequential,
  are called with the same arguments, every sub-evaluator returns, and \<open>order\<close> is any
  order in which the six futures may complete. Both calls return a dict, the two dicts
  have the same keys, and they agree on every key that at most one sub-evaluator emits:
  only the value of a key that several sub-evaluators emit can differ.
\<close>

theorem concurrent_keys_equal_sequential:
  assumes "parallel par" and "\<not> parallel seq" and "evaluators par = evaluators seq"
    and "map (\<lambda>ev. ev \<lparr>question = q, answer = a, context_arg = c, ground_truth = g, kwargs = kw\<rparr>)
           (evaluators seq) = map Inr rs"
    and "completion_order (length (evaluators par)) order"
  shows "\<exists>mp ms. returned (QAEvaluator_call par q a c g kw order) = Inr mp
           \<and> returned (QAEvaluator_call seq q a c g kw order') = Inr ms
           \<and> dom mp = dom ms
           \<and> (\<forall>k. length (filter (\<lambda>r. k \<in> dom r) rs) \<le> 1 \<longrightarrow> mp k = ms k)"
proof -
  let ?ps = "map (\<lambda>i. rs ! i) order"
  let ?mp = "foldl (++) Map.empty ?ps"
  let ?ms = "foldl (++) Map.empty rs"
  have len: "length rs = length (evaluators par)"
    using assms(3,4) by (metis length_map)
  have p: "returned (QAEvaluator_call par q a c g kw order) = Inr ?mp"
    using assms(1) assms(4) [folded assms(3)] assms(5) by (rule parallel_all_succeed)
  have s: "returned (QAEvaluator_call seq q a c g kw order') = Inr ?ms"
    using assms(2,4) by (rule sequential_all_succeed)
  have same: "set ?ps = set rs"
    using assms(5) len by (simp only: completion_order_covers)
  have d: "dom ?mp = dom ?ms"
    by (simp only: dom_foldl_map_add same)
  have v: "?mp k = ?ms k" if u: "length (filter (\<lambda>r. k \<in> dom r) rs) \<le> 1" for k
  proof (cases "filter (\<lambda>r. k \<in> dom r) rs")
    case Nil
    then have "\<forall>r\<in>set rs. k \<notin> dom r"
      by (simp add: filter_empty_conv)
    then have ns: "k \<notin> dom ?ms" by (simp add: dom_foldl_map_add)
    with d have np: "k \<notin> dom ?mp" by simp
    from ns np show ?thesis by (simp add: domIff)
  next
    case (Cons r0 rest)
    with u have only: "filter (\<lambda>r. k \<in> dom r) rs = [r0]" by simp
    have "r \<in> set (filter (\<lambda>r. k \<in> dom r) rs) \<longleftrightarrow> r \<in> set [r0]" for r
      by (simp only: only)
    then have mem: "r \<in> set rs \<and> k \<in> dom r \<longleftrightarrow> r = r0" for r
      by simp
    from mem [of r0] have "r0 \<in> set rs" and "k \<in> dom r0" by simp_all
    then have ex: "\<exists>r\<in>set rs. k \<in> dom r" by auto
    have agreed: "\<forall>r\<in>set rs. k \<in> dom r \<longrightarrow> r k = r0 k"
    proof (intro ballI impI)
      fix r assume "r \<in> set rs" and "k \<in> dom r"
      with mem [of r] have "r = r0" by simp
      then show "r k = r0 k" by simp
    qed
    have "?ms k = r0 k"
      using agreed ex by (rule foldl_map_add_agreed)
    moreover have "?mp k = r0 k"
      using agreed ex unfolding same [symmetric] by (rule foldl_map_add_agreed)
    ultimately show ?thesis by simp
  qed
  from p s d v show ?thesis by blast
qed

text \<open>
  The colliding mocks, completing in reverse order: the keys are the same, the key only
  the last mock emits has the same value, and the colliding key \<open>''score''\<close> has the
  value of position 0 in concurrent mode and of position 4 in sequential mode.
\<close>

theorem concurrent_keys_equal_sequential_witness:
  "completion_order (length colliding_mocks) [5, 4, 3, 2, 1, 0]
   \<and> (\<exists>mp ms.
         returned (QAEvaluator_call \<lparr>parallel = True, evaluators = colliding_mocks\<rparr>
           ''Tokyo is the capital of which country?'' ''Japan''
           ''Tokyo is the capital of Japan.'' ''Japan'' [] [5, 4, 3, 2, 1, 0]) = Inr mp
       \<and> returned (QAEvaluator_call \<lparr>parallel = False, evaluators = colliding_mocks\<rparr>
           ''Tokyo is the capital of which country?'' ''Japan''
           ''Tokyo is the capital of Japan.'' ''Japan'' [] []) = Inr ms
       \<and> dom mp = dom ms
       \<and> mp ''f1_score'' = ms ''f1_score''
       \<and> mp ''score'' = Some 1 \<and> ms ''score'' = Some 5)"
proof -
  let ?par = "\<lparr>parallel = True, evaluators = colliding_mocks\<rparr>"
  let ?seq = "\<lparr>parallel = False, evaluators = colliding_mocks\<rparr>"
  let ?rs = "map map_of colliding_results"
  let ?order = "[5, 4, 3, 2, 1, 0 :: nat]"
  have h1: "parallel ?par" and h2: "\<not> parallel ?seq" and h3: "evaluators ?par = evaluators ?seq"
    by simp_all
  have h4: "map (\<lambda>ev. ev \<lparr>question = ''Tokyo is the capital of which country?'', answer = ''Japan'',
                context_arg = ''Tokyo is the capital of Japan.'', ground_truth = ''Japan'', kwargs = []\<rparr>)
              (evaluators ?seq) = map Inr ?rs"
    by (simp add: colliding_mocks_def mock_returning_def)
  have len: "length colliding_mocks = 6"
    by (simp add: colliding_mocks_def colliding_results_def)
  have co: "completion_order (length colliding_mocks) ?order"
    unfolding len by code_simp
  then have h5: "completion_order (length (evaluators ?par)) ?order" by simp
  from concurrent_keys_equal_sequential [OF h1 h2 h3 h4 h5, of "[]"]
  obtain mp ms where p: "returned (QAEvaluator_call ?par
           ''Tokyo is the capital of which country?'' ''Japan''
           ''Tokyo is the capital of Japan.'' ''Japan'' [] ?order) = Inr mp"
    and s: "returned (QAEvaluator_call ?seq
           ''Tokyo is the capital of which country?'' ''Japan''
           ''Tokyo is the capital of Japan.'' ''Japan'' [] []) = Inr ms"
    and d: "dom mp = dom ms"
    and u: "\<And>k. length (filter (\<lambda>r. k \<in> dom r) ?rs) \<le> 1 \<Longrightarrow> mp k = ms k"
    by blast
  have f1: "mp ''f1_score'' = ms ''f1_score''"
    by (rule u) (simp add: colliding_results_def)
  have "returned (QAEvaluator_call ?par
           ''Tokyo is the capital of which country?'' ''Japan''
           ''Tokyo is the capital of Japan.'' ''Japan'' [] ?order) =
        Inr (foldl (++) Map.empty (map (\<lambda>i. ?rs ! i) ?order))"
    using h1 h4 [folded h3] h5 by (rule parallel_all_succeed)
  with p have "mp = foldl (++) Map.empty (map (\<lambda>i. ?rs ! i) ?order)" by simp
  then have vp: "mp ''score'' = Some 1"
    by (simp add: colliding_results_def)
  have "returned (QAEvaluator_call ?seq
           ''Tokyo is the capital of which country?'' ''Japan''
           ''Tokyo is the capital of Japan.'' ''Japan'' [] []) = Inr (foldl (++) Map.empty ?rs)"
    using h2 h4 by (rule sequential_all_succeed)
  with s have "ms = foldl (++) Map.empty ?rs" by simp
  then have vs: "ms ''score'' = Some 5"
    by (simp add: colliding_results_def)
  show ?thesis
    apply (rule conjI [OF co])
    apply (rule exI [of _ mp], rule exI [of _ ms])
    apply (intro conjI p s d f1 vp vs)
    done
qed

section \<open>A sub-evaluator that raises\<close>

text \<open>
  Claim C3. When some sub-evaluator raises on the call's arguments, the call raises in
  either mode: what the caller gets is the error of a sub-evaluator that raised, as it
  was raised, and no dict. In sequential mode it is the first in list order that raises,
  in concurrent mode the first in completion order.
\<close>

theorem collaborator_failure_propagates:
  assumes "i < length (evaluators self)"
    and "(evaluators self ! i) \<lparr>question = q, answer = a, context_arg = c, ground_truth = g, kwargs = kw\<rparr>
           = Inl err"
    and "completion_order (length (evaluators self)) order"
  shows "\<exists>j err'. j < length (evaluators self)
           \<and> (evaluators self ! j) \<lparr>question = q, answer = a, context_arg = c, ground_truth = g, kwargs = kw\<rparr>
               = Inl err'
           \<and> returned (QAEvaluator_call self q a c g kw order) = Inl err'"
proof (cases "parallel self")
  case True
  let ?x = "\<lparr>question = q, answer = a, context_arg = c, ground_truth = g, kwargs = kw\<rparr>"
  let ?futures = "map (\<lambda>ev. ev ?x) (evaluators self)"
  have bound: "set order \<subseteq> {0..<length (evaluators self)}"
    using assms(3) by (rule completion_order_bound)
  have "i \<in> set order"
    using assms(1,3) by (simp add: completion_order_def)
  then have "Inl err \<in> set (as_completed ?futures order)"
    using assms(1,2) by (force simp: as_completed_def)
  then have "\<exists>e. Inl e \<in> set (as_completed ?futures order)" ..
  from collect_loop_failure [OF this, of Map.empty]
  obtain err' where e: "Inl err' \<in> set (as_completed ?futures order)"
    and r: "collect_loop (as_completed ?futures order) Map.empty = Inl err'"
    by blast
  from e obtain j where j: "j \<in> set order" "?futures ! j = Inl err'"
    by (auto simp: as_completed_def)
  with bound have jl: "j < length (evaluators self)" by auto
  with j(2) have "(evaluators self ! j) ?x = Inl err'" by simp
  moreover have "returned (QAEvaluator_call self q a c g kw order) = Inl err'"
    using True r by (simp only: parallel_returned)
  ultimately show ?thesis using jl by blast
next
  case False
  let ?x = "\<lparr>question = q, answer = a, context_arg = c, ground_truth = g, kwargs = kw\<rparr>"
  from first_failure [OF assms(1,2)]
  obtain n e where n: "n \<le> i" "(evaluators self ! n) ?x = Inl e"
    "\<forall>j<n. \<exists>r. (evaluators self ! j) ?x = Inr r"
    by blast
  from n(1) assms(1) have nl: "n < length (evaluators self)" by simp
  have "returned (QAEvaluator_call self q a c g kw order) = Inl e"
    using False by (simp add: sequential_returned sequential_loop_first_failure [OF nl n(2,3)])
  with nl n(2) show ?thesis by blast
qed

text \<open>The third of six mocks raises; both modes raise its error.\<close>

theorem collaborator_failure_propagates_witness:
  "2 < length third_raises
   \<and> (third_raises ! 2) \<lparr>question = ''Tokyo is the capital of which country?'', answer = ''Japan'',
         context_arg = ''Tokyo is the capital of Japan.'', ground_truth = ''Japan'', kwargs = []\<rparr>
       = Inl ''boom''
   \<and> completion_order (length third_raises) [5, 4, 3, 2, 1, 0]
   \<and> returned (QAEvaluator_call \<lparr>parallel = True, evaluators = third_raises\<rparr>
         ''Tokyo is the capital of which country?'' ''Japan''
         ''Tokyo is the capital of Japan.'' ''Japan'' [] [5, 4, 3, 2, 1, 0]) = Inl ''boom''
   \<and> returned (QAEvaluator_call \<lparr>parallel = False, evaluators = third_raises\<rparr>
         ''Tokyo is the capital of which country?'' ''Japan''
         ''Tokyo is the capital of Japan.'' ''Japan'' [] [5, 4, 3, 2, 1, 0]) = Inl ''boom''"
proof -
  let ?x = "\<lparr>question = ''Tokyo is the capital of which country?'', answer = ''Japan'',
         context_arg = ''Tokyo is the capital of Japan.'', ground_truth = ''Japan'',
         kwargs = ([] :: (string \<times> nat) list)\<rparr>"
  let ?order = "[5, 4, 3, 2, 1, 0 :: nat]"
  let ?par = "\<lparr>parallel = True, evaluators = third_raises\<rparr>"
  let ?seq = "\<lparr>parallel = False, evaluators = third_raises\<rparr>"
  have len: "length third_raises = 6"
    by (simp add: third_raises_def)
  have h1: "2 < length third_raises" by (simp add: len)
  have h2: "(third_raises ! 2) ?x = Inl ''boom''"
    by (simp add: third_raises_def mock_raising_def)
  have h3: "completion_order (length third_raises) ?order"
    unfolding len by code_simp
  have only: "e = ''boom''" if "j < length third_raises" and "(third_raises ! j) ?x = Inl e" for j e
  proof -
    from that(1) have "j \<in> {0, 1, 2, 3, 4, 5}" unfolding len by auto
    with that(2) show ?thesis
      by (auto simp: third_raises_def mock_returning_def mock_raising_def)
  qed
  have evp: "evaluators ?par = third_raises" and evs: "evaluators ?seq = third_raises"
    by simp_all
  from collaborator_failure_propagates [of 2 ?par, unfolded evp, OF h1 h2 h3]
  obtain j e where "j < length third_raises" and "(third_raises ! j) ?x = Inl e"
    and r: "returned (QAEvaluator_call ?par
         ''Tokyo is the capital of which country?'' ''Japan''
         ''Tokyo is the capital of Japan.'' ''Japan'' [] ?order) = Inl e"
    by blast
  then have "e = ''boom''" by (simp only: only)
  with r have p: "returned (QAEvaluator_call ?par
         ''Tokyo is the capital of which country?'' ''Japan''
         ''Tokyo is the capital of Japan.'' ''Japan'' [] ?order) = Inl ''boom''"
    by simp
  from collaborator_failure_propagates [of 2 ?seq, unfolded evs, OF h1 h2 h3]
  obtain j' e' where "j' < length third_raises" and "(third_raises ! j') ?x = Inl e'"
    and r': "returned (QAEvaluator_call ?seq
         ''Tokyo is the capital of which country?'' ''Japan''
         ''Tokyo is the capital of Japan.'' ''Japan'' [] ?order) = Inl e'"
    by blast
  then have "e' = ''boom''" by (simp only: only)
  with r' have s: "returned (QAEvaluator_call ?seq
         ''Tokyo is the capital of which country?'' ''Japan''
         ''Tokyo is the capital of Japan.'' ''Japan'' [] ?order) = Inl ''boom''"
    by simp
  from h1 h2 h3 p s show ?thesis by (intro conjI)
qed

text \<open>
  Claim C4. In sequential mode, when the sub-evaluator at position \<open>i\<close> raises, no
  sub-evaluator at a position after \<open>i\<close> is invoked and the call raises: the dicts merged
  so far are not returned. When the sub-evaluators before \<open>i\<close> all return, the error is
  the one position \<open>i\<close> raised and the positions invoked are exactly \<open>0\<close> to \<open>i\<close>.
\<close>

theorem sequential_failure_stops_the_loop:
  assumes "\<not> parallel self" and "i < length (evaluators self)"
    and "(evaluators self ! i) \<lparr>question = q, answer = a, context_arg = c, ground_truth = g, kwargs = kw\<rparr>
           = Inl err"
  shows "(\<forall>j\<in>fst ` set (invoked (QAEvaluator_call self q a c g kw order)). j \<le> i)
       \<and> (\<exists>err'. returned (QAEvaluator_call self q a c g kw order) = Inl err')
       \<and> ((\<forall>j<i. \<exists>r. (evaluators self ! j)
                 \<lparr>question = q, answer = a, context_arg = c, ground_truth = g, kwargs = kw\<rparr> = Inr r)
            \<longrightarrow> returned (QAEvaluator_call self q a c g kw order) = Inl err
              \<and> map fst (invoked (QAEvaluator_call self q a c g kw order)) = [0..<Suc i])"
proof -
  let ?x = "\<lparr>question = q, answer = a, context_arg = c, ground_truth = g, kwargs = kw\<rparr>"
  let ?out = "QAEvaluator_call self q a c g kw order"
  from first_failure [OF assms(2,3)]
  obtain n e where n: "n \<le> i" "(evaluators self ! n) ?x = Inl e"
    "\<forall>j<n. \<exists>r. (evaluators self ! j) ?x = Inr r"
    by blast
  from n(1) assms(2) have nl: "n < length (evaluators self)" by simp
  have loop: "sequential_loop (evaluators self) 0 ?x Map.empty [] =
      (Inl e, map (\<lambda>j. (j, ?x)) [0..<Suc n])"
    using sequential_loop_first_failure [OF nl n(2,3), of 0 Map.empty "[]"] by simp
  have ret: "returned ?out = Inl e"
    using assms(1) by (simp add: sequential_returned loop)
  have inv: "map fst (invoked ?out) = [0..<Suc n]"
    using assms(1) by (simp add: sequential_invoked loop comp_def del: upt_Suc)
  have a: "\<forall>j\<in>fst ` set (invoked ?out). j \<le> i"
  proof
    fix j assume "j \<in> fst ` set (invoked ?out)"
    then have "j \<in> set (map fst (invoked ?out))" by simp
    then have "j \<in> set [0..<Suc n]" by (simp only: inv)
    with n(1) show "j \<le> i" by auto
  qed
  have c: "returned ?out = Inl err \<and> map fst (invoked ?out) = [0..<Suc i]"
    if "\<forall>j<i. \<exists>r. (evaluators self ! j) ?x = Inr r"
  proof -
    have "n = i"
    proof (rule ccontr)
      assume "n \<noteq> i"
      with n(1) have "n < i" by simp
      with that n(2) show False by auto
    qed
    with ret inv n(2) assms(3) show ?thesis by simp
  qed
  from a ret c show ?thesis by blast
qed

text \<open>
  The third of six mocks raises in sequential mode: positions 0, 1 and 2 are invoked,
  positions 3, 4 and 5 are not, and the caller gets the error.
\<close>

theorem sequential_failure_stops_the_loop_witness:
  "\<not> parallel \<lparr>parallel = False, evaluators = third_raises\<rparr>
   \<and> 2 < length third_raises
   \<and> returned (QAEvaluator_call \<lparr>parallel = False, evaluators = third_raises\<rparr>
         ''Tokyo is the capital of which country?'' ''Japan''
         ''Tokyo is the capital of Japan.'' ''Japan'' [] []) = Inl ''boom''
   \<and> map fst (invoked (QAEvaluator_call \<lparr>parallel = False, evaluators = third_raises\<rparr>
         ''Tokyo is the capital of which country?'' ''Japan''
         ''Tokyo is the capital of Japan.'' ''Japan'' [] [])) = [0, 1, 2]
   \<and> 3 \<notin> fst ` set (invoked (QAEvaluator_call \<lparr>parallel = False, evaluators = third_raises\<rparr>
         ''Tokyo is the capital of which country?'' ''Japan''
         ''Tokyo is the capital of Japan.'' ''Japan'' [] []))"
proof -
  let ?x = "\<lparr>question = ''Tokyo is the capital of which country?'', answer = ''Japan'',
         context_arg = ''Tokyo is the capital of Japan.'', ground_truth = ''Japan'',
         kwargs = ([] :: (string \<times> nat) list)\<rparr>"
  let ?seq = "\<lparr>parallel = False, evaluators = third_raises\<rparr>"
  let ?out = "QAEvaluator_call ?seq
         ''Tokyo is the capital of which country?'' ''Japan''
         ''Tokyo is the capital of Japan.'' ''Japan'' [] []"
  have h1: "\<not> parallel ?seq" by simp
  have ev: "evaluators ?seq = third_raises" by simp
  have h2: "2 < length third_raises" by (simp add: third_raises_def)
  have h3: "(third_raises ! 2) ?x = Inl ''boom''"
    by (simp add: third_raises_def mock_raising_def)
  have before: "\<forall>j<2. \<exists>r. (third_raises ! j) ?x = Inr r"
  proof (intro allI impI)
    fix j :: nat assume "j < 2"
    then have "j \<in> {0, 1}" by auto
    then show "\<exists>r. (third_raises ! j) ?x = Inr r"
      by (auto simp: third_raises_def mock_returning_def)
  qed
  note fact = sequential_failure_stops_the_loop [of ?seq 2, unfolded ev, OF h1 h2 h3, of "[]"]
  from fact have a: "\<forall>j\<in>fst ` set (invoked ?out). j \<le> 2" by (rule conjunct1)
  from fact before have r: "returned ?out = Inl ''boom''"
    and m: "map fst (invoked ?out) = [0..<Suc 2]"
    by blast+
  have "[0..<Suc 2] = [0, 1, 2]" by code_simp
  with m have m': "map fst (invoked ?out) = [0, 1, 2]" by simp
  have n: "3 \<notin> fst ` set (invoked ?out)"
  proof
    assume "3 \<in> fst ` set (invoked ?out)"
    with a have "(3::nat) \<le> 2" by (rule bspec)
    then show False by simp
  qed
  from h1 h2 r m' n show ?thesis by (intro conjI)
qed

section \<open>What the sub-evaluators receive\<close>

lemma all_return_as_list:
  assumes "\<forall>ev\<in>set evs. \<exists>r. ev x = Inr r"
  shows "map (\<lambda>ev. ev x) evs = map Inr (map (\<lambda>ev. projr (ev x)) evs)"
proof -
  have "ev x = Inr (projr (ev x))" if "ev \<in> set evs" for ev
    using assms that by (metis sum.sel(2))
  then show ?thesis by simp
qed

lemma sequential_invoked_all_succeed:
  assumes "\<not> parallel self"
    and "map (\<lambda>ev. ev \<lparr>question = q, answer = a, context_arg = c, ground_truth = g, kwargs = kw\<rparr>)
           (evaluators self) = map Inr rs"
  shows "invoked (QAEvaluator_call self q a c g kw order) =
           map (\<lambda>j. (j, \<lparr>question = q, answer = a, context_arg = c, ground_truth = g, kwargs = kw\<rparr>))
             [0..<length (evaluators self)]"
  using assms by (simp add: sequential_invoked sequential_loop_all_succeed)

lemma sequential_invoked_first_failure:
  assumes "\<not> parallel self" and "n < length (evaluators self)"
    and "(evaluators self ! n) \<lparr>question = q, answer = a, context_arg = c, ground_truth = g, kwargs = kw\<rparr>
           = Inl err"
    and "\<forall>j<n. \<exists>r. (evaluators self ! j)
           \<lparr>question = q, answer = a, context_arg = c, ground_truth = g, kwargs = kw\<rparr> = Inr r"
  shows "invoked (QAEvaluator_call self q a c g kw order) =
           map (\<lambda>j. (j, \<lparr>question = q, answer = a, context_arg = c, ground_truth = g, kwargs = kw\<rparr>))
             [0..<Suc n]"
  using assms(1) sequential_loop_first_failure [OF assms(2,3,4), of 0 Map.empty "[]"]
  by (simp add: sequential_invoked del: upt_Suc)

lemma invoked_is_prefix:
  "\<exists>m\<le>length (evaluators self).
     invoked (QAEvaluator_call self q a c g kw order) =
       map (\<lambda>j. (j, \<lparr>question = q, answer = a, context_arg = c, ground_truth = g, kwargs = kw\<rparr>)) [0..<m]"
proof (cases "parallel self")
  case True
  then show ?thesis by (auto simp only: parallel_invoked)
next
  case False
  let ?x = "\<lparr>question = q, answer = a, context_arg = c, ground_truth = g, kwargs = kw\<rparr>"
  from all_succeed_or_first_failure [of ?x "evaluators self"]
  show ?thesis
  proof (elim disjE exE conjE)
    fix rs assume "map (\<lambda>ev. ev ?x) (evaluators self) = map Inr rs"
    with False have "invoked (QAEvaluator_call self q a c g kw order) =
        map (\<lambda>j. (j, ?x)) [0..<length (evaluators self)]"
      by (rule sequential_invoked_all_succeed)
    then show ?thesis by (intro exI [of _ "length (evaluators self)"] conjI le_refl)
  next
    fix n e
    assume n: "n < length (evaluators self)" "(evaluators self ! n) ?x = Inl e"
      "\<forall>j<n. \<exists>r. (evaluators self ! j) ?x = Inr r"
    with False have "invoked (QAEvaluator_call self q a c g kw order) = map (\<lambda>j. (j, ?x)) [0..<Suc n]"
      by (rule sequential_invoked_first_failure)
    moreover from n(1) have "Suc n \<le> length (evaluators self)" by simp
    ultimately show ?thesis by (intro exI [of _ "Suc n"] conjI)
  qed
qed

text \<open>
  Claim C5, as stated, asks that every call forwards the arguments to each of the six
  sub-evaluators. In sequential mode a sub-evaluator that raises ends the loop, and the
  ones after it are not called at all: with the third of six mocks raising, only positions
  0, 1 and 2 are called (here with the empty string \<open>[]\<close> for each field and one
  extra keyword argument, which binds).
\<close>

theorem forwarding_to_all_six_counterexample:
  "valid_kwargs [(''temperature'', 0 :: nat)]
   \<and> length (evaluators \<lparr>parallel = False, evaluators = third_raises\<rparr>) = 6
   \<and> invoked (QAEvaluator_call \<lparr>parallel = False, evaluators = third_raises\<rparr>
        [] [] [] [] [(''temperature'', 0)] []) =
       [(0, \<lparr>question = [], answer = [], context_arg = [], ground_truth = [],
              kwargs = [(''temperature'', 0)]\<rparr>),
        (1, \<lparr>question = [], answer = [], context_arg = [], ground_truth = [],
              kwargs = [(''temperature'', 0)]\<rparr>),
        (2, \<lparr>question = [], answer = [], context_arg = [], ground_truth = [],
              kwargs = [(''temperature'', 0)]\<rparr>)]
   \<and> invocations (QAEvaluator_bind_call \<lparr>parallel = False, evaluators = third_raises\<rparr>
        [] [] [] [] [(''temperature'', 0)] []) =
       invoked (QAEvaluator_call \<lparr>parallel = False, evaluators = third_raises\<rparr>
        [] [] [] [] [(''temperature'', 0)] [])"
proof (intro conjI)
  show v: "valid_kwargs [(''temperature'', 0 :: nat)]"
    by (simp add: valid_kwargs_def reserved_names_def)
  show "length (evaluators \<lparr>parallel = False, evaluators = third_raises\<rparr>) = 6"
    by (simp add: third_raises_def)
  show "invoked (QAEvaluator_call \<lparr>parallel = False, evaluators = third_raises\<rparr>
        [] [] [] [] [(''temperature'', 0)] []) =
       [(0, \<lparr>question = [], answer = [], context_arg = [], ground_truth = [],
              kwargs = [(''temperature'', 0)]\<rparr>),
        (1, \<lparr>question = [], answer = [], context_arg = [], ground_truth = [],
              kwargs = [(''temperature'', 0)]\<rparr>),
        (2, \<lparr>question = [], answer = [], context_arg = [], ground_truth = [],
              kwargs = [(''temperature'', 0)]\<rparr>)]"
    by (simp add: QAEvaluator_call_def Let_def third_raises_def mock_returning_def mock_raising_def
        numeral_2_eq_2)
  show "invocations (QAEvaluator_bind_call \<lparr>parallel = False, evaluators = third_raises\<rparr>
        [] [] [] [] [(''temperature'', 0)] []) =
       invoked (QAEvaluator_call \<lparr>parallel = False, evaluators = third_raises\<rparr>
        [] [] [] [] [(''temperature'', 0)] [])"
    using v by (simp add: QAEvaluator_bind_call_def)
qed

text \<open>
  Claim C5, amended. A call whose extra keyword arguments do not bind (one is named
  \<open>self\<close> or like one of the four fields, or a name comes twice) raises
  \<open>TypeError\<close> and invokes no sub-evaluator. Otherwise the body runs, and every invocation
  it makes passes exactly the call's four fields and its extra keyword arguments,
  unchanged, whatever they are (empty strings too): the invocations are those of the first
  \<open>m\<close> positions, in order, each with these arguments. All sub-evaluators are invoked
  in concurrent mode, and in either mode when all of them return. In sequential mode, when
  position \<open>i\<close> is the first that raises, the positions invoked are \<open>0\<close> to \<open>i\<close>.
\<close>

theorem invocations_receive_call_arguments:
  "(\<not> valid_kwargs kw \<longrightarrow>
      QAEvaluator_bind_call self q a c g kw order = TypeError
      \<and> invocations (QAEvaluator_bind_call self q a c g kw order) = [])
   \<and> (valid_kwargs kw \<longrightarrow>
      QAEvaluator_bind_call self q a c g kw order = Bound (QAEvaluator_call self q a c g kw order)
      \<and> (\<exists>m\<le>length (evaluators self).
            invocations (QAEvaluator_bind_call self q a c g kw order) =
              map (\<lambda>j. (j, \<lparr>question = q, answer = a, context_arg = c, ground_truth = g, kwargs = kw\<rparr>))
                [0..<m])
      \<and> (parallel self
            \<or> (\<forall>ev\<in>set (evaluators self). \<exists>r.
                  ev \<lparr>question = q, answer = a, context_arg = c, ground_truth = g, kwargs = kw\<rparr> = Inr r)
          \<longrightarrow> invocations (QAEvaluator_bind_call self q a c g kw order) =
                map (\<lambda>j. (j, \<lparr>question = q, answer = a, context_arg = c, ground_truth = g, kwargs = kw\<rparr>))
                  [0..<length (evaluators self)])
      \<and> (\<forall>i err. \<not> parallel self \<and> i < length (evaluators self)
              \<and> (evaluators self ! i)
                   \<lparr>question = q, answer = a, context_arg = c, ground_truth = g, kwargs = kw\<rparr> = Inl err
              \<and> (\<forall>j<i. \<exists>r. (evaluators self ! j)
                   \<lparr>question = q, answer = a, context_arg = c, ground_truth = g, kwargs = kw\<rparr> = Inr r)
            \<longrightarrow> invocations (QAEvaluator_bind_call self q a c g kw order) =
                  map (\<lambda>j. (j, \<lparr>question = q, answer = a, context_arg = c, ground_truth = g, kwargs = kw\<rparr>))
                    [0..<Suc i]))"
proof (cases "valid_kwargs kw")
  case False
  then show ?thesis by (simp add: QAEvaluator_bind_call_def)
next
  case True
  let ?x = "\<lparr>question = q, answer = a, context_arg = c, ground_truth = g, kwargs = kw\<rparr>"
  let ?out = "QAEvaluator_call self q a c g kw order"
  have b: "QAEvaluator_bind_call self q a c g kw order = Bound ?out"
    using True by (simp add: QAEvaluator_bind_call_def)
  have i: "invocations (QAEvaluator_bind_call self q a c g kw order) = invoked ?out"
    by (simp add: b)
  have p: "\<exists>m\<le>length (evaluators self). invoked ?out = map (\<lambda>j. (j, ?x)) [0..<m]"
    by (rule invoked_is_prefix)
  have al: "invoked ?out = map (\<lambda>j. (j, ?x)) [0..<length (evaluators self)]"
    if "parallel self \<or> (\<forall>ev\<in>set (evaluators self). \<exists>r. ev ?x = Inr r)"
  proof (cases "parallel self")
    case True
    then show ?thesis by (rule parallel_invoked)
  next
    case False
    with that have "\<forall>ev\<in>set (evaluators self). \<exists>r. ev ?x = Inr r" by simp
    then have "map (\<lambda>ev. ev ?x) (evaluators self) =
        map Inr (map (\<lambda>ev. projr (ev ?x)) (evaluators self))"
      by (rule all_return_as_list)
    with False show ?thesis by (rule sequential_invoked_all_succeed)
  qed
  have ff: "invoked ?out = map (\<lambda>j. (j, ?x)) [0..<Suc i]"
    if "\<not> parallel self \<and> i < length (evaluators self) \<and> (evaluators self ! i) ?x = Inl err
          \<and> (\<forall>j<i. \<exists>r. (evaluators self ! j) ?x = Inr r)" for i err
    using that by (intro sequential_invoked_first_failure [where err = err]) simp_all
  from True b p al ff show ?thesis
    unfolding i by (intro conjI impI allI) simp_all
qed

text \<open>
  Concurrent mode with the third mock raising: with an extra keyword that binds all six
  positions are invoked, with an extra keyword named \<open>self\<close> none is.
\<close>

theorem invocations_receive_call_arguments_witness:
  "valid_kwargs [(''temperature'', 0 :: nat)]
   \<and> parallel \<lparr>parallel = True, evaluators = third_raises\<rparr>
   \<and> invocations (QAEvaluator_bind_call \<lparr>parallel = True, evaluators = third_raises\<rparr>
        [] [] [] [] [(''temperature'', 0)] [5, 4, 3, 2, 1, 0]) =
       map (\<lambda>j. (j, \<lparr>question = [], answer = [], context_arg = [], ground_truth = [],
                        kwargs = [(''temperature'', 0)]\<rparr>)) [0, 1, 2, 3, 4, 5]
   \<and> \<not> valid_kwargs [(''self'', 1 :: nat)]
   \<and> QAEvaluator_bind_call \<lparr>parallel = True, evaluators = third_raises\<rparr>
        [] [] [] [] [(''self'', 1)] [5, 4, 3, 2, 1, 0] = TypeError
   \<and> invocations (QAEvaluator_bind_call \<lparr>parallel = True, evaluators = third_raises\<rparr>
        [] [] [] [] [(''self'', 1)] [5, 4, 3, 2, 1, 0]) = []"
proof -
  let ?par = "\<lparr>parallel = True, evaluators = third_raises\<rparr>"
  let ?x = "\<lparr>question = [], answer = [], context_arg = [], ground_truth = [],
             kwargs = [(''temperature'', 0 :: nat)]\<rparr>"
  have v: "valid_kwargs [(''temperature'', 0 :: nat)]"
    by (simp add: valid_kwargs_def reserved_names_def)
  have nv: "\<not> valid_kwargs [(''self'', 1 :: nat)]"
    by (simp add: valid_kwargs_def reserved_names_def)
  have p: "parallel ?par" by simp
  have len: "length (evaluators ?par) = 6" by (simp add: third_raises_def)
  have upt: "[0..<6] = [0, 1, 2, 3, 4, 5]" by code_simp
  note good = invocations_receive_call_arguments
    [of "[(''temperature'', 0)]" ?par "[]" "[]" "[]" "[]" "[5, 4, 3, 2, 1, 0]"]
  from good v have "parallel ?par
        \<or> (\<forall>ev\<in>set (evaluators ?par). \<exists>r. ev ?x = Inr r)
      \<longrightarrow> invocations (QAEvaluator_bind_call ?par [] [] [] [] [(''temperature'', 0)] [5, 4, 3, 2, 1, 0]) =
            map (\<lambda>j. (j, ?x)) [0..<length (evaluators ?par)]"
    by blast
  with p have "invocations (QAEvaluator_bind_call ?par [] [] [] [] [(''temperature'', 0)] [5, 4, 3, 2, 1, 0]) =
            map (\<lambda>j. (j, ?x)) [0..<length (evaluators ?par)]"
    by blast
  then have six: "invocations (QAEvaluator_bind_call ?par [] [] [] [] [(''temperature'', 0)] [5, 4, 3, 2, 1, 0]) =
            map (\<lambda>j. (j, ?x)) [0, 1, 2, 3, 4, 5]"
    by (simp only: len upt)
  note bad = invocations_receive_call_arguments
    [of "[(''self'', 1)]" ?par "[]" "[]" "[]" "[]" "[5, 4, 3, 2, 1, 0]"]
  from bad nv have t: "QAEvaluator_bind_call ?par [] [] [] [] [(''self'', 1)] [5, 4, 3, 2, 1, 0] = TypeError"
    and n: "invocations (QAEvaluator_bind_call ?par [] [] [] [] [(''self'', 1)] [5, 4, 3, 2, 1, 0]) = []"
    by blast+
  show ?thesis by (intro conjI v p six nv t n)
qed

section \<open>The constructor\<close>

lemma init_success:
  assumes "QAEvaluator_init cls cfg flag = Inr self"
  shows "map Inr (evaluators self) =
           [GroundednessEvaluator cls cfg, RelevanceEvaluator cls cfg, CoherenceEvaluator cls cfg,
            FluencyEvaluator cls cfg, SimilarityEvaluator cls cfg, F1ScoreEvaluator cls ()]"
    and "parallel self = (case flag of None \<Rightarrow> True | Some b \<Rightarrow> b)"
  using assms by (auto simp: QAEvaluator_init_def Let_def split: sum.splits)

lemma raised_here: "\<exists>pre post. Inl e # xs = map Inr pre @ Inl e # post"
  by (rule exI [of _ "[]"]) simp

lemma raised_later:
  assumes "\<exists>pre post. xs = map Inr pre @ Inl e # post"
  shows "\<exists>pre post. Inr v # xs = map Inr pre @ Inl e # post"
proof -
  from assms obtain pre post where "xs = map Inr pre @ Inl e # post" by blast
  then have "Inr v # xs = map Inr (v # pre) @ Inl e # post" by simp
  then show ?thesis by blast
qed

lemma init_failure:
  assumes "QAEvaluator_init cls cfg flag = Inl err"
  shows "\<exists>pre post.
           [GroundednessEvaluator cls cfg, RelevanceEvaluator cls cfg, CoherenceEvaluator cls cfg,
            FluencyEvaluator cls cfg, SimilarityEvaluator cls cfg, F1ScoreEvaluator cls ()]
           = map Inr pre @ Inl err # post"
  using assms
  by (auto simp: QAEvaluator_init_def Let_def split: sum.splits intro!: raised_here raised_later)

lemma init_first_failure:
  assumes "[GroundednessEvaluator cls cfg, RelevanceEvaluator cls cfg, CoherenceEvaluator cls cfg,
            FluencyEvaluator cls cfg, SimilarityEvaluator cls cfg, F1ScoreEvaluator cls ()]
           = map Inr pre @ Inl err # post"
  shows "QAEvaluator_init cls cfg flag = Inl err"
  using assms
  by (auto simp: QAEvaluator_init_def Let_def Cons_eq_append_conv Cons_eq_map_conv split: sum.splits)

text \<open>
  Claim C7. \<open>__init__\<close> makes six constructor calls: the five model-based classes get
  the model configuration as it was passed, \<open>F1ScoreEvaluator\<close> gets no argument. When it
  returns, the instance holds the six objects these calls returned, in this order. It
  raises exactly when one of the six constructors raises, and then with the error of the
  first that does, unchanged.
\<close>

theorem init_constructs_six_collaborators:
  "(\<forall>self. QAEvaluator_init cls cfg flag = Inr self \<longrightarrow>
      length (evaluators self) = 6
      \<and> map Inr (evaluators self) =
          [GroundednessEvaluator cls cfg, RelevanceEvaluator cls cfg, CoherenceEvaluator cls cfg,
           FluencyEvaluator cls cfg, SimilarityEvaluator cls cfg, F1ScoreEvaluator cls ()])
   \<and> (\<forall>err. QAEvaluator_init cls cfg flag = Inl err \<longleftrightarrow>
        (\<exists>pre post.
          [GroundednessEvaluator cls cfg, RelevanceEvaluator cls cfg, CoherenceEvaluator cls cfg,
           FluencyEvaluator cls cfg, SimilarityEvaluator cls cfg, F1ScoreEvaluator cls ()]
          = map Inr pre @ Inl err # post))"
proof (intro conjI allI impI iffI)
  fix self assume ok: "QAEvaluator_init cls cfg flag = Inr self"
  then show m: "map Inr (evaluators self) =
          [GroundednessEvaluator cls cfg, RelevanceEvaluator cls cfg, CoherenceEvaluator cls cfg,
           FluencyEvaluator cls cfg, SimilarityEvaluator cls cfg, F1ScoreEvaluator cls ()]"
    by (rule init_success)
  from arg_cong [OF m, of length] show "length (evaluators self) = 6" by simp
next
  fix err assume "QAEvaluator_init cls cfg flag = Inl err"
  then show "\<exists>pre post.
          [GroundednessEvaluator cls cfg, RelevanceEvaluator cls cfg, CoherenceEvaluator cls cfg,
           FluencyEvaluator cls cfg, SimilarityEvaluator cls cfg, F1ScoreEvaluator cls ()]
          = map Inr pre @ Inl err # post"
    by (rule init_failure)
next
  fix err assume "\<exists>pre post.
          [GroundednessEvaluator cls cfg, RelevanceEvaluator cls cfg, CoherenceEvaluator cls cfg,
           FluencyEvaluator cls cfg, SimilarityEvaluator cls cfg, F1ScoreEvaluator cls ()]
          = map Inr pre @ Inl err # post"
  then obtain pre post where
    "[GroundednessEvaluator cls cfg, RelevanceEvaluator cls cfg, CoherenceEvaluator cls cfg,
      FluencyEvaluator cls cfg, SimilarityEvaluator cls cfg, F1ScoreEvaluator cls ()]
     = map Inr pre @ Inl err # post"
    by blast
  then show "QAEvaluator_init cls cfg flag = Inl err"
    by (rule init_first_failure)
qed

text \<open>
  The mock classes build six sub-evaluators from configuration 7; with a Coherence
  constructor that raises, construction raises its error.
\<close>

theorem init_constructs_six_collaborators_witness:
  "(\<exists>self. QAEvaluator_init mock_classes 7 None = Inr self
      \<and> length (evaluators self) = 6
      \<and> evaluators self =
          [mock_returning [(''score'', 8), (''gpt'', 8)],
           mock_returning [(''score'', 9), (''gpt'', 9)],
           mock_returning [(''score'', 10), (''gpt'', 10)],
           mock_returning [(''score'', 11), (''gpt'', 11)],
           mock_returning [(''score'', 12), (''gpt'', 12)],
           mock_returning [(''score'', 0), (''f1_score'', 0)]])
   \<and> QAEvaluator_init broken_classes 7 None = Inl ''bad config''"
proof -
  obtain self where i: "QAEvaluator_init mock_classes 7 None = Inr self"
    by (simp add: QAEvaluator_init_def mock_classes_def)
  from init_constructs_six_collaborators [of mock_classes 7 None] i
  have ok1: "length (evaluators self) = 6"
    and "map Inr (evaluators self) =
          [GroundednessEvaluator mock_classes 7, RelevanceEvaluator mock_classes 7,
           CoherenceEvaluator mock_classes 7, FluencyEvaluator mock_classes 7,
           SimilarityEvaluator mock_classes 7, F1ScoreEvaluator mock_classes ()]"
    by blast+
  then have "map (Inr :: _ \<Rightarrow> string + _) (evaluators self) =
          map Inr [mock_returning [(''score'', 8), (''gpt'', 8)],
           mock_returning [(''score'', 9), (''gpt'', 9)],
           mock_returning [(''score'', 10), (''gpt'', 10)],
           mock_returning [(''score'', 11), (''gpt'', 11)],
           mock_returning [(''score'', 12), (''gpt'', 12)],
           mock_returning [(''score'', 0), (''f1_score'', 0)]]"
    by (simp add: mock_classes_def)
  then have ok2: "evaluators self =
          [mock_returning [(''score'', 8), (''gpt'', 8)],
           mock_returning [(''score'', 9), (''gpt'', 9)],
           mock_returning [(''score'', 10), (''gpt'', 10)],
           mock_returning [(''score'', 11), (''gpt'', 11)],
           mock_returning [(''score'', 12), (''gpt'', 12)],
           mock_returning [(''score'', 0), (''f1_score'', 0)]]"
    by (simp only: inj_map_eq_map [OF inj_Inr])
  have "[GroundednessEvaluator broken_classes 7, RelevanceEvaluator broken_classes 7,
         CoherenceEvaluator broken_classes 7, FluencyEvaluator broken_classes 7,
         SimilarityEvaluator broken_classes 7, F1ScoreEvaluator broken_classes ()]
        = map Inr [mock_returning [(''score'', 8), (''gpt'', 8)],
                   mock_returning [(''score'', 9), (''gpt'', 9)]]
          @ Inl ''bad config''
          # [Inr (mock_returning [(''score'', 11), (''gpt'', 11)]),
             Inr (mock_returning [(''score'', 12), (''gpt'', 12)]),
             Inr (mock_returning [(''score'', 0), (''f1_score'', 0)])]"
    by (simp add: broken_classes_def mock_classes_def)
  then have "\<exists>pre post.
        [GroundednessEvaluator broken_classes 7, RelevanceEvaluator broken_classes 7,
         CoherenceEvaluator broken_classes 7, FluencyEvaluator broken_classes 7,
         SimilarityEvaluator broken_classes 7, F1ScoreEvaluator broken_classes ()]
        = map Inr pre @ Inl ''bad config'' # post"
    by (intro exI)
  with init_constructs_six_collaborators [of broken_classes 7 None]
  have bad: "QAEvaluator_init broken_classes 7 None = Inl ''bad config''"
    by blast
  show ?thesis
    apply (rule conjI [OF _ bad])
    apply (rule exI [of _ self])
    apply (intro conjI i ok1 ok2)
    done
qed

text \<open>
  Claim C6. An instance built without the flag is in concurrent mode; one built with the
  flag has the mode the flag says. The only operation on an instance is the call, and the
  instance after a call has the mode it had before.
\<close>

theorem default_mode_is_concurrent:
  assumes "QAEvaluator_init cls cfg flag = Inr self"
  shows "(flag = None \<longrightarrow> parallel self)
       \<and> (\<forall>b. flag = Some b \<longrightarrow> parallel self = b)
       \<and> parallel (self_after (QAEvaluator_call self q a c g kw order)) = parallel self"
  using init_success(2) [OF assms] by (simp add: self_after_call)

text \<open>The mock classes, built without the flag.\<close>

theorem default_mode_is_concurrent_witness:
  "\<exists>self. QAEvaluator_init mock_classes 7 None = Inr self
     \<and> parallel self
     \<and> parallel (self_after (QAEvaluator_call self
          ''Tokyo is the capital of which country?'' ''Japan''
          ''Tokyo is the capital of Japan.'' ''Japan'' [] [0, 1, 2, 3, 4, 5]))"
proof -
  obtain self where i: "QAEvaluator_init mock_classes 7 None = Inr self"
    by (simp add: QAEvaluator_init_def mock_classes_def)
  note fact = default_mode_is_concurrent [OF i, of "''Tokyo is the capital of which country?''"
    "''Japan''" "''Tokyo is the capital of Japan.''" "''Japan''" "[]" "[0, 1, 2, 3, 4, 5]"]
  from fact have p: "parallel self" by simp
  from fact have "parallel (self_after (QAEvaluator_call self
          ''Tokyo is the capital of which country?'' ''Japan''
          ''Tokyo is the capital of Japan.'' ''Japan'' [] [0, 1, 2, 3, 4, 5])) = parallel self"
    by (rule conjunct2 [OF conjunct2])
  with p have "parallel (self_after (QAEvaluator_call self
          ''Tokyo is the capital of which country?'' ''Japan''
          ''Tokyo is the capital of Japan.'' ''Japan'' [] [0, 1, 2, 3, 4, 5]))"
    by simp
  with i p show ?thesis by (intro exI [of _ self] conjI)
qed

section \<open>The instance across calls\<close>

text \<open>
  Claim C8. A call does not change the instance: after the call, whether it returned or
  raised, the flag and the list of sub-evaluators are what they were. Nothing is carried
  from one call to the next: a second call on the instance the first call left behaves as
  it would on the original instance.
\<close>

theorem call_leaves_instance_unchanged:
  "self_after (QAEvaluator_call self q a c g kw order) = self
   \<and> parallel (self_after (QAEvaluator_call self q a c g kw order)) = parallel self
   \<and> evaluators (self_after (QAEvaluator_call self q a c g kw order)) = evaluators self
   \<and> QAEvaluator_call (self_after (QAEvaluator_call self q a c g kw order)) q' a' c' g' kw' order'
       = QAEvaluator_call self q' a' c' g' kw' order'"
  by (simp add: self_after_call)

text \<open>
  Claim C10. In sequential mode the result does not depend on anything but the instance
  and the arguments: a second call with the same arguments, on the instance the first call
  left, gives the caller what the first call gave (the same dict, or the same error), for
  any scheduling parameter of either call.
\<close>

theorem sequential_call_is_deterministic:
  assumes "\<not> parallel self"
  shows "returned (QAEvaluator_call (self_after (QAEvaluator_call self q a c g kw order1))
                     q a c g kw order2)
         = returned (QAEvaluator_call self q a c g kw order1)"
  using assms by (simp add: self_after_call sequential_returned)

text \<open>Two sequential calls on the colliding mocks, with different scheduling parameters.\<close>

theorem sequential_call_is_deterministic_witness:
  "\<not> parallel \<lparr>parallel = False, evaluators = colliding_mocks\<rparr>
   \<and> returned (QAEvaluator_call
        (self_after (QAEvaluator_call \<lparr>parallel = False, evaluators = colliding_mocks\<rparr>
           ''Tokyo is the capital of which country?'' ''Japan''
           ''Tokyo is the capital of Japan.'' ''Japan'' [] [0, 1, 2, 3, 4, 5]))
        ''Tokyo is the capital of which country?'' ''Japan''
        ''Tokyo is the capital of Japan.'' ''Japan'' [] [5, 4, 3, 2, 1, 0])
     = returned (QAEvaluator_call \<lparr>parallel = False, evaluators = colliding_mocks\<rparr>
        ''Tokyo is the capital of which country?'' ''Japan''
        ''Tokyo is the capital of Japan.'' ''Japan'' [] [0, 1, 2, 3, 4, 5])"
proof -
  have s: "\<not> parallel \<lparr>parallel = False, evaluators = colliding_mocks\<rparr>" by simp
  from s sequential_call_is_deterministic [OF s] show ?thesis by (rule conjI)
qed

section \<open>The order of the sub-evaluators\<close>

lemma map_add_pick: "(m1 ++ m2) k = (if k \<in> dom m2 then m2 k else m1 k)"
  by (simp add: map_add_dom_app_simps)

lemma init_all_succeed:
  assumes "[GroundednessEvaluator cls cfg, RelevanceEvaluator cls cfg, CoherenceEvaluator cls cfg,
            FluencyEvaluator cls cfg, SimilarityEvaluator cls cfg, F1ScoreEvaluator cls ()]
           = map Inr [e1, e2, e3, e4, e5, e6]"
  shows "QAEvaluator_init cls cfg flag =
           Inr \<lparr>parallel = (case flag of None \<Rightarrow> True | Some b \<Rightarrow> b),
                evaluators = [e1, e2, e3, e4, e5, e6]\<rparr>"
  using assms by (simp add: QAEvaluator_init_def)

text \<open>
  Claim C9. The constructor lists the sub-evaluators in the order Groundedness, Relevance,
  Coherence, Fluency, Similarity, F1Score, and a call leaves the list as it is. So when a
  sequential instance is called and the six return the dicts \<open>rg\<close>, \<open>rr\<close>, \<open>rc\<close>,
  \<open>rf\<close>, \<open>rs\<close>, \<open>rf1\<close>, the result is these merged left to right: a key has the
  value F1Score gave it if F1Score emits it, else the value of the last model-based
  sub-evaluator in list order that emits it.
\<close>

theorem collaborator_order_decides_collisions:
  assumes "[GroundednessEvaluator cls cfg, RelevanceEvaluator cls cfg, CoherenceEvaluator cls cfg,
            FluencyEvaluator cls cfg, SimilarityEvaluator cls cfg, F1ScoreEvaluator cls ()]
           = map Inr [eg, er, ec, ef, es, ef1]"
    and "map (\<lambda>ev. ev \<lparr>question = q, answer = a, context_arg = c, ground_truth = g, kwargs = kw\<rparr>)
           [eg, er, ec, ef, es, ef1] = map Inr [rg, rr, rc, rf, rs, rf1]"
  shows "\<exists>self m. QAEvaluator_init cls cfg (Some False) = Inr self
           \<and> evaluators self = [eg, er, ec, ef, es, ef1]
           \<and> evaluators (self_after (QAEvaluator_call self q a c g kw order)) = [eg, er, ec, ef, es, ef1]
           \<and> returned (QAEvaluator_call self q a c g kw order) = Inr m
           \<and> m = rg ++ rr ++ rc ++ rf ++ rs ++ rf1
           \<and> (\<forall>k. m k = (if k \<in> dom rf1 then rf1 k
                          else if k \<in> dom rs then rs k
                          else if k \<in> dom rf then rf k
                          else if k \<in> dom rc then rc k
                          else if k \<in> dom rr then rr k
                          else rg k))"
proof -
  let ?self = "\<lparr>parallel = False, evaluators = [eg, er, ec, ef, es, ef1]\<rparr>"
  let ?m = "rg ++ rr ++ rc ++ rf ++ rs ++ rf1"
  have i: "QAEvaluator_init cls cfg (Some False) = Inr ?self"
    using init_all_succeed [OF assms(1), of "Some False"] by simp
  have seq: "\<not> parallel ?self" and ev: "evaluators ?self = [eg, er, ec, ef, es, ef1]"
    by simp_all
  have "map (\<lambda>ev. ev \<lparr>question = q, answer = a, context_arg = c, ground_truth = g, kwargs = kw\<rparr>)
          (evaluators ?self) = map Inr [rg, rr, rc, rf, rs, rf1]"
    using assms(2) by (simp only: ev)
  with seq have "returned (QAEvaluator_call ?self q a c g kw order) =
          Inr (foldl (++) Map.empty [rg, rr, rc, rf, rs, rf1])"
    by (rule sequential_all_succeed)
  then have r: "returned (QAEvaluator_call ?self q a c g kw order) = Inr ?m"
    by simp
  have after: "evaluators (self_after (QAEvaluator_call ?self q a c g kw order)) = [eg, er, ec, ef, es, ef1]"
    by (simp add: self_after_call)
  have pick: "\<forall>k. ?m k = (if k \<in> dom rf1 then rf1 k
                          else if k \<in> dom rs then rs k
                          else if k \<in> dom rf then rf k
                          else if k \<in> dom rc then rc k
                          else if k \<in> dom rr then rr k
                          else rg k)"
    by (simp only: map_add_pick) simp
  show ?thesis
    apply (rule exI [of _ ?self], rule exI [of _ ?m])
    apply (intro conjI i ev after r refl pick)
    done
qed

text \<open>
  The mock classes, built with configuration 7 and called on the Tokyo example. Every
  mock emits \<open>''score''\<close>, the five model-based ones emit \<open>''gpt''\<close>: F1Score's value
  wins the first, Similarity's (the last model-based one) the second.
\<close>

theorem collaborator_order_decides_collisions_witness:
  "\<exists>self m. QAEvaluator_init mock_classes 7 (Some False) = Inr self
     \<and> returned (QAEvaluator_call self
          ''Tokyo is the capital of which country?'' ''Japan''
          ''Tokyo is the capital of Japan.'' ''Japan'' [] []) = Inr m
     \<and> m ''score'' = Some 0 \<and> m ''gpt'' = Some 12 \<and> m ''f1_score'' = Some 0"
proof -
  let ?eg = "mock_returning [(''score'', 8), (''gpt'', 8)] :: (nat, string, nat) evaluator"
  let ?er = "mock_returning [(''score'', 9), (''gpt'', 9)] :: (nat, string, nat) evaluator"
  let ?ec = "mock_returning [(''score'', 10), (''gpt'', 10)] :: (nat, string, nat) evaluator"
  let ?ef = "mock_returning [(''score'', 11), (''gpt'', 11)] :: (nat, string, nat) evaluator"
  let ?es = "mock_returning [(''score'', 12), (''gpt'', 12)] :: (nat, string, nat) evaluator"
  let ?ef1 = "mock_returning [(''score'', 0), (''f1_score'', 0)] :: (nat, string, nat) evaluator"
  let ?rg = "map_of [(''score'', 8::nat), (''gpt'', 8)]"
  let ?rr = "map_of [(''score'', 9::nat), (''gpt'', 9)]"
  let ?rc = "map_of [(''score'', 10::nat), (''gpt'', 10)]"
  let ?rf = "map_of [(''score'', 11::nat), (''gpt'', 11)]"
  let ?rs = "map_of [(''score'', 12::nat), (''gpt'', 12)]"
  let ?rf1 = "map_of [(''score'', 0::nat), (''f1_score'', 0)]"
  have h1: "[GroundednessEvaluator mock_classes 7, RelevanceEvaluator mock_classes 7,
             CoherenceEvaluator mock_classes 7, FluencyEvaluator mock_classes 7,
             SimilarityEvaluator mock_classes 7, F1ScoreEvaluator mock_classes ()]
            = map Inr [?eg, ?er, ?ec, ?ef, ?es, ?ef1]"
    by (simp add: mock_classes_def)
  have h2: "map (\<lambda>ev. ev \<lparr>question = ''Tokyo is the capital of which country?'', answer = ''Japan'',
                context_arg = ''Tokyo is the capital of Japan.'', ground_truth = ''Japan'', kwargs = []\<rparr>)
              [?eg, ?er, ?ec, ?ef, ?es, ?ef1] = map Inr [?rg, ?rr, ?rc, ?rf, ?rs, ?rf1]"
    by (simp add: mock_returning_def)
  from collaborator_order_decides_collisions [OF h1 h2, of "[]"]
  obtain self m where i: "QAEvaluator_init mock_classes 7 (Some False) = Inr self"
    and r: "returned (QAEvaluator_call self
          ''Tokyo is the capital of which country?'' ''Japan''
          ''Tokyo is the capital of Japan.'' ''Japan'' [] []) = Inr m"
    and pick: "\<And>k. m k = (if k \<in> dom ?rf1 then ?rf1 k
                          else if k \<in> dom ?rs then ?rs k
                          else if k \<in> dom ?rf then ?rf k
                          else if k \<in> dom ?rc then ?rc k
                          else if k \<in> dom ?rr then ?rr k
                          else ?rg k)"
    by blast
  have s: "m ''score'' = Some 0" by (simp only: pick) simp
  have t: "m ''gpt'' = Some 12" by (simp only: pick) simp
  have u: "m ''f1_score'' = Some 0" by (simp only: pick) simp
  show ?thesis
    apply (rule exI [of _ self], rule exI [of _ m])
    apply (intro conjI i r s t u)
    done
qed

section \<open>The example of the docstring\<close>

text \<open>
  The call of the docstring with six mocks that each return one metric of their own, valued 1:
  the result has the six keys, each with value 1, in sequential mode and for a completion
  order in concurrent mode.
\<close>

lemma distinct_mocks_scenario:
  "\<exists>m. returned (QAEvaluator_call \<lparr>parallel = False, evaluators = distinct_mocks\<rparr>
          ''Tokyo is the capital of which country?'' ''Japan''
          ''Tokyo is the capital of Japan.'' ''Japan'' [] []) = Inr m
     \<and> dom m = {''gpt_groundedness'', ''gpt_relevance'', ''gpt_coherence'', ''gpt_fluency'',
                ''gpt_similarity'', ''f1_score''}
     \<and> (\<forall>k\<in>dom m. m k = Some 1)"
  by (auto simp: QAEvaluator_call_def Let_def distinct_mocks_def mock_returning_def)

lemma distinct_mocks_scenario_concurrent:
  "\<exists>m. returned (QAEvaluator_call \<lparr>parallel = True, evaluators = distinct_mocks\<rparr>
          ''Tokyo is the capital of which country?'' ''Japan''
          ''Tokyo is the capital of Japan.'' ''Japan'' [] [3, 0, 5, 1, 4, 2]) = Inr m
     \<and> dom m = {''gpt_groundedness'', ''gpt_relevance'', ''gpt_coherence'', ''gpt_fluency'',
                ''gpt_similarity'', ''f1_score''}
     \<and> (\<forall>k\<in>dom m. m k = Some 1)"
  by (auto simp: QAEvaluator_call_def Let_def submit_all_def as_completed_def distinct_mocks_def
      mock_returning_def)

end
